theory Spec2Isabelle
  imports Main "HOL-Library.Word"
begin

section \<open>Dynamically typed values\<close>

text \<open>
  Go's \<^verbatim>\<open>interface{}\<close> as the YAML decoder and the syslog parser fill it: a tagged
  value. A Go map is modelled as an association list; a well-formed one has distinct keys,
  and since Go ranges over a map in an unspecified order, a statement about every
  association list with the same distinct entries covers every order of iteration.
  \<open>DOther\<close> stands for any value of another dynamic type (a time stamp, a float).
\<close>

datatype dynamic =
    DNil
  | DBool bool
  | DInt int
  | DString string
  | DList "dynamic list"
  | DMap "(dynamic \<times> dynamic) list"
  | DOther nat

text \<open>A failed type assertion \<^verbatim>\<open>x.(T)\<close>, a nil dereference and a negative
  \<^verbatim>\<open>make\<close> length are run-time panics.\<close>

datatype panic = TypeAssertion | NilDereference | MakesliceLenOutOfRange | InvalidOptionType

section \<open>Configuration (package shared)\<close>

record PluginConfig =
  Enable :: bool
  Settings :: "string \<rightharpoonup> dynamic"

text \<open>\<^verbatim>\<open>Config.Settings\<close>, a \<^verbatim>\<open>map[string][]PluginConfig\<close>. The record
  field is named \<open>PluginLists\<close> since \<open>Settings\<close> is the field of \<open>PluginConfig\<close>.\<close>

record Config =
  PluginLists :: "string \<rightharpoonup> PluginConfig list"

text \<open>The innermost loop of \<^verbatim>\<open>SetYAML\<close>: all key/value pairs of one settings map.\<close>

fun settings_loop :: "PluginConfig \<Rightarrow> (dynamic \<times> dynamic) list \<Rightarrow> panic + PluginConfig" where
  "settings_loop plugin [] = Inr plugin"
| "settings_loop plugin ((settingKey, settingValue) # rest) =
     (case settingKey of
        DString key \<Rightarrow>
          (if key = ''Enable'' then
             (case settingValue of
                DBool b \<Rightarrow> settings_loop (plugin\<lparr>Enable := b\<rparr>) rest
              | _ \<Rightarrow> Inl TypeAssertion)
           else settings_loop (plugin\<lparr>Settings := (Settings plugin)(key \<mapsto> settingValue)\<rparr>) rest)
      | _ \<Rightarrow> Inl TypeAssertion)"

text \<open>The middle loop: the entries (class, settings) of one declaration.\<close>

fun class_loop :: "Config \<Rightarrow> (dynamic \<times> dynamic) list \<Rightarrow> panic + Config" where
  "class_loop conf [] = Inr conf"
| "class_loop conf ((pluginClass, pluginSettings) # rest) =
     (case pluginSettings of
        DMap pluginSettingsMap \<Rightarrow>
          (case settings_loop \<lparr>Enable = False, Settings = Map.empty\<rparr> pluginSettingsMap of
             Inl e \<Rightarrow> Inl e
           | Inr plugin \<Rightarrow>
               (case pluginClass of
                  DString cls \<Rightarrow>
                    (let list = (case PluginLists conf cls of Some l \<Rightarrow> l | None \<Rightarrow> [])
                     in class_loop (conf\<lparr>PluginLists := (PluginLists conf)(cls \<mapsto> list @ [plugin])\<rparr>) rest)
                | _ \<Rightarrow> Inl TypeAssertion))
      | _ \<Rightarrow> Inl TypeAssertion)"

text \<open>The outer loop: the list of declarations.\<close>

fun plugin_loop :: "Config \<Rightarrow> dynamic list \<Rightarrow> panic + Config" where
  "plugin_loop conf [] = Inr conf"
| "plugin_loop conf (pluginData # rest) =
     (case pluginData of
        DMap pluginDataMap \<Rightarrow>
          (case class_loop conf pluginDataMap of
             Inl e \<Rightarrow> Inl e
           | Inr conf' \<Rightarrow> plugin_loop conf' rest)
      | _ \<Rightarrow> Inl TypeAssertion)"

text \<open>\<^verbatim>\<open>SetYAML\<close> mutates the map held by \<open>conf\<close> and returns \<open>true\<close>; the model returns
  the updated configuration with the result. The tag is not read.\<close>

definition SetYAML :: "Config \<Rightarrow> string \<Rightarrow> dynamic \<Rightarrow> panic + (Config \<times> bool)" where
  "SetYAML conf tagType values =
     (case values of
        DList pluginList \<Rightarrow>
          (case plugin_loop conf pluginList of
             Inl e \<Rightarrow> Inl e
           | Inr conf' \<Rightarrow> Inr (conf', True))
      | _ \<Rightarrow> Inl TypeAssertion)"

text \<open>The pre-parsed tree of a sequence of declarations, each a class name with its
  settings: a list of single-entry maps.\<close>

definition settings_tree :: "(string \<times> dynamic) list \<Rightarrow> dynamic" where
  "settings_tree s = DMap (map (\<lambda>(k, v). (DString k, v)) s)"

definition declaration_tree :: "(string \<times> (string \<times> dynamic) list) list \<Rightarrow> dynamic" where
  "declaration_tree decls = DList (map (\<lambda>(c, s). DMap [(DString c, settings_tree s)]) decls)"

text \<open>The list stored for a class; a missing key of a Go map reads as the empty list.\<close>

definition plugins_of :: "Config \<Rightarrow> string \<Rightarrow> PluginConfig list" where
  "plugins_of conf cls = (case PluginLists conf cls of Some l \<Rightarrow> l | None \<Rightarrow> [])"

text \<open>A settings map as a declaration can give it: every key once, and \<open>Enable\<close>, where
  it is given, a boolean as the configuration format declares it.\<close>

definition is_bool :: "dynamic \<Rightarrow> bool" where
  "is_bool v = (case v of DBool b \<Rightarrow> True | _ \<Rightarrow> False)"

definition well_typed_settings :: "(string \<times> dynamic) list \<Rightarrow> bool" where
  "well_typed_settings s \<longleftrightarrow>
     distinct (map fst s) \<and> list_all (\<lambda>(k, v). k \<noteq> ''Enable'' \<or> is_bool v) s"

text \<open>The declared settings without \<open>Enable\<close>.\<close>

definition stored_settings :: "(string \<times> dynamic) list \<Rightarrow> (string \<rightharpoonup> dynamic)" where
  "stored_settings s = (\<lambda>k. if k = ''Enable'' then None else map_of s k)"

section \<open>The syslog consumer (consumer/syslogd.go)\<close>

datatype Format = RFC3164 | RFC5424 | RFC6587

text \<open>Calls into the go-syslog server, in the order the consumer makes them. The server
  itself is an external library; the model records the calls.\<close>

datatype server_call =
    NewServer
  | SetFormat "Format option"
  | SetHandler
  | ListenUnixgram string
  | ListenUDP string
  | ListenTCP string
  | Boot
  | Kill
  | Wait

text \<open>What the consumer does to the outside: log lines, messages handed to
  \<^verbatim>\<open>ConsumerBase.Enqueue\<close> with their sequence number, server calls, the
  registration of the two fuse callbacks (a callback is the list of server calls its
  body makes) and the call of \<^verbatim>\<open>ControlLoop\<close>.\<close>

datatype event =
    LogWarning string
  | LogError string
  | Enqueue string "64 word"
  | Server server_call
  | SetFuseBurnedCallback "server_call list"
  | SetFuseActiveCallback "server_call list"
  | ControlLoop

datatype 'e error = BaseError 'e | UnknownProtocol string | FormatNotSupported string

text \<open>The struct. \<open>format\<close> is an interface value and \<open>sequence\<close> a pointer: both are
  nil (\<open>None\<close>) in the zero value that the type registry hands out.\<close>

record 'b Syslogd =
  ConsumerBase :: 'b
  format :: "Format option"
  protocol :: string
  address :: string
  sequence :: "64 word option"

text \<open>
  \<^verbatim>\<open>Configure\<close>. Three functions it calls are not part of the file and are parameters:
  \<open>baseConfigure\<close> is \<^verbatim>\<open>ConsumerBase.Configure(conf)\<close> (the new base and its error),
  \<open>confGetString\<close> is \<^verbatim>\<open>conf.GetString\<close> and \<open>ParseAddress\<close> is
  \<^verbatim>\<open>shared.ParseAddress\<close>, which returns the address and the protocol in this order.
  The result is the consumer, the log lines written and the returned error.
\<close>

definition Syslogd_Configure ::
  "('b \<Rightarrow> 'b \<times> 'e option) \<Rightarrow> (string \<Rightarrow> string \<Rightarrow> string) \<Rightarrow> (string \<Rightarrow> string \<times> string) \<Rightarrow>
   'b Syslogd \<Rightarrow> 'b Syslogd \<times> event list \<times> 'e error option" where
  "Syslogd_Configure baseConfigure confGetString ParseAddress cons =
     (case baseConfigure (ConsumerBase cons) of
        (base, Some e) \<Rightarrow> (cons\<lparr>ConsumerBase := base\<rparr>, [], Some (BaseError e))
      | (base, None) \<Rightarrow>
          (let (addr, proto) = ParseAddress (confGetString ''Address'' ''udp://0.0.0.0:514'');
               cons1 = cons\<lparr>ConsumerBase := base, protocol := proto, address := addr\<rparr>;
               fmt = confGetString ''Format'' ''RFC6587''
           in if \<not> (proto = ''udp'' \<or> proto = ''tcp'' \<or> proto = ''unix'')
              then (cons1, [], Some (UnknownProtocol proto))
              else
                (let (cons2, log, err) =
                   (if fmt = ''RFC3164'' then
                      (if proto = ''tcp''
                       then (cons1\<lparr>format := Some RFC3164, protocol := ''udp''\<rparr>,
                             [LogWarning ''Syslog: RFC3164 demands UDP''], None)
                       else (cons1\<lparr>format := Some RFC3164\<rparr>, [], None))
                    else if fmt = ''RFC5424'' then
                      (if proto = ''tcp''
                       then (cons1\<lparr>format := Some RFC5424, protocol := ''udp''\<rparr>,
                             [LogWarning ''Syslog: RFC5424 demands UDP''], None)
                       else (cons1\<lparr>format := Some RFC5424\<rparr>, [], None))
                    else if fmt = ''RFC6587'' then (cons1\<lparr>format := Some RFC6587\<rparr>, [], None)
                    else (cons1, [], Some (FormatNotSupported fmt)))
                 in (cons2\<lparr>sequence := Some 0\<rparr>, log, err))))"

text \<open>The checked type assertion \<^verbatim>\<open>parts[key].(string)\<close>; a missing key reads as nil.\<close>

definition string_assertion :: "dynamic option \<Rightarrow> string \<times> bool" where
  "string_assertion v = (case v of Some (DString s) \<Rightarrow> (s, True) | _ \<Rightarrow> ([], False))"

text \<open>\<^verbatim>\<open>Handle\<close>. Its parameters \<^verbatim>\<open>code\<close> and \<^verbatim>\<open>err\<close> are not read by the body
  and are left out. The argument \<^verbatim>\<open>*cons.sequence\<close> is evaluated before the call of
  \<^verbatim>\<open>Enqueue\<close>, so a nil pointer panics with nothing enqueued.\<close>

definition Syslogd_Handle :: "'b Syslogd \<Rightarrow> (string \<rightharpoonup> dynamic) \<Rightarrow> panic + ('b Syslogd \<times> event list)" where
  "Syslogd_Handle cons parts =
     (let ((content, isString), log) =
        (case format cons of
           Some RFC3164 \<Rightarrow> (string_assertion (parts ''content''), [])
         | Some RFC5424 \<Rightarrow> (string_assertion (parts ''message''), [])
         | Some RFC6587 \<Rightarrow> (string_assertion (parts ''message''), [])
         | None \<Rightarrow> (([], False),
                    [LogError ''Could not determine the format to retrieve message/content'']))
      in if \<not> isString then Inr (cons, log @ [LogError ''Message/Content is not a string''])
         else
           (case sequence cons of
              None \<Rightarrow> Inl NilDereference
            | Some s \<Rightarrow> Inr (cons\<lparr>sequence := Some (s + 1)\<rparr>, log @ [Enqueue content s])))"

text \<open>A sequence of calls of \<^verbatim>\<open>Handle\<close> on one consumer, one per parsed message,
  in which no two calls overlap: each call returns before the next begins. \<^verbatim>\<open>Handle\<close>
  reads and increments the counter through the shared pointer without a lock, so calls
  that run at the same time, as the server makes them for several connections, are not
  described by this function.\<close>

fun HandleAll :: "'b Syslogd \<Rightarrow> (string \<rightharpoonup> dynamic) list \<Rightarrow> panic + ('b Syslogd \<times> event list)" where
  "HandleAll cons [] = Inr (cons, [])"
| "HandleAll cons (parts # rest) =
     (case Syslogd_Handle cons parts of
        Inl p \<Rightarrow> Inl p
      | Inr (cons', evs) \<Rightarrow>
          (case HandleAll cons' rest of
             Inl p \<Rightarrow> Inl p
           | Inr (cons'', evs') \<Rightarrow> Inr (cons'', evs @ evs')))"

text \<open>The sequence numbers passed to \<^verbatim>\<open>Enqueue\<close>, in order.\<close>

fun seqnos :: "event list \<Rightarrow> 64 word list" where
  "seqnos [] = []"
| "seqnos (Enqueue content s # es) = s # seqnos es"
| "seqnos (e # es) = seqnos es"

text \<open>The field of the parsed message that carries its text, by format, and whether a
  consumer finds a string there. A consumer with no format expects no field.\<close>

definition expected_field :: "Format \<Rightarrow> string" where
  "expected_field f =
     (case f of RFC3164 \<Rightarrow> ''content'' | RFC5424 \<Rightarrow> ''message'' | RFC6587 \<Rightarrow> ''message'')"

definition field_is_string :: "'b Syslogd \<Rightarrow> (string \<rightharpoonup> dynamic) \<Rightarrow> bool" where
  "field_is_string cons parts =
     (case format cons of
        None \<Rightarrow> False
      | Some f \<Rightarrow> (case parts (expected_field f) of Some (DString s) \<Rightarrow> True | _ \<Rightarrow> False))"

text \<open>Log lines, as opposed to everything else a consumer does.\<close>

fun is_log :: "event \<Rightarrow> bool" where
  "is_log (LogWarning m) = True"
| "is_log (LogError m) = True"
| "is_log e = False"

text \<open>\<^verbatim>\<open>Consume\<close>, as the calls it makes up to and including its call of
  \<^verbatim>\<open>ControlLoop\<close>. \<open>listenFails\<close> says whether the listen call returned an error, which is
  logged and otherwise ignored. What \<^verbatim>\<open>server.Kill()\<close> and \<^verbatim>\<open>server.Boot()\<close> do to the
  sockets and to the goroutines of the server is the library's and is not modelled, nor is
  what follows the control loop (\<^verbatim>\<open>server.Wait()\<close> and the deferred \<^verbatim>\<open>server.Kill()\<close>),
  which depends on when those goroutines end.\<close>

definition Syslogd_Consume :: "bool \<Rightarrow> 'b Syslogd \<Rightarrow> event list" where
  "Syslogd_Consume listenFails cons =
     [Server NewServer, Server (SetFormat (format cons)), Server SetHandler]
     @ (if protocol cons = ''unix'' then
          Server (ListenUnixgram (address cons))
          # (if listenFails then [LogError (''Syslog: Failed to open unix://'' @ address cons)] else [])
        else if protocol cons = ''udp'' then
          Server (ListenUDP (address cons))
          # (if listenFails then [LogError (''Syslog: Failed to open udp://'' @ address cons)] else [])
        else if protocol cons = ''tcp'' then
          Server (ListenTCP (address cons))
          # (if listenFails then [LogError (''Syslog: Failed to open tcp://'' @ address cons)] else [])
        else [])
     @ [Server Boot,
        SetFuseBurnedCallback [Kill],
        SetFuseActiveCallback [Boot],
        ControlLoop]"

section \<open>The profiler (consumer/Profiler.go)\<close>

text \<open>
  Modelled from the spec: the body of \<^verbatim>\<open>PluginConfig.GetInt\<close>, which the plugins call
  and which is defined in another source file. The spec says that a typed getter returns
  the caller's default if a key is absent, and the declared value otherwise; it lists an
  option of an invalid type among the configuration errors, which is
  \<open>Inl InvalidOptionType\<close> here. The getter reads the \<open>Settings\<close> map of the struct; the
  struct has no field in which a getter could record the keys it touched, so that part of
  the spec is not modelled.
\<close>

definition GetInt :: "PluginConfig \<Rightarrow> string \<Rightarrow> int \<Rightarrow> panic + int" where
  "GetInt conf key defaultValue =
     (case Settings conf key of
        None \<Rightarrow> Inr defaultValue
      | Some (DInt v) \<Rightarrow> Inr v
      | Some _ \<Rightarrow> Inl InvalidOptionType)"

text \<open>Modelled from the spec: the body of \<^verbatim>\<open>PluginConfig.GetString\<close>, as for
  \<open>GetInt\<close>.\<close>

definition GetString :: "PluginConfig \<Rightarrow> string \<Rightarrow> string \<Rightarrow> panic + string" where
  "GetString conf key defaultValue =
     (case Settings conf key of
        None \<Rightarrow> Inr defaultValue
      | Some (DString v) \<Rightarrow> Inr v
      | Some _ \<Rightarrow> Inl InvalidOptionType)"

text \<open>Modelled from the spec: the body of \<^verbatim>\<open>PluginConfig.GetBool\<close>, as for
  \<open>GetInt\<close>.\<close>

definition GetBool :: "PluginConfig \<Rightarrow> string \<Rightarrow> bool \<Rightarrow> panic + bool" where
  "GetBool conf key defaultValue =
     (case Settings conf key of
        None \<Rightarrow> Inr defaultValue
      | Some (DBool v) \<Rightarrow> Inr v
      | Some _ \<Rightarrow> Inl InvalidOptionType)"

text \<open>The struct; \<open>length'\<close> is the field \<^verbatim>\<open>length\<close>. Go's \<^verbatim>\<open>int\<close> is modelled
  as \<open>int\<close>: the loop counters stay below their bounds and nothing here can overflow.\<close>

record 'c Profiler =
  standardConsumer :: 'c
  profileRuns :: int
  batches :: int
  length' :: int

text \<open>\<^verbatim>\<open>Create\<close>. \<open>configureStandardConsumer\<close> belongs to the embedded struct and is a
  parameter: it returns the configured base and its error.\<close>

definition Profiler_Create ::
  "('c \<Rightarrow> PluginConfig \<Rightarrow> 'c \<times> 'e option) \<Rightarrow> 'c Profiler \<Rightarrow> PluginConfig \<Rightarrow>
   panic + ('c Profiler \<times> 'e option)" where
  "Profiler_Create configureStandardConsumer cons conf =
     (let (base, err) = configureStandardConsumer (standardConsumer cons) conf in
      case GetInt conf ''Runs'' 10000 of
        Inl p \<Rightarrow> Inl p
      | Inr runs \<Rightarrow>
          (case GetInt conf ''Batches'' 10 of
             Inl p \<Rightarrow> Inl p
           | Inr b \<Rightarrow>
               (case GetInt conf ''Length'' 256 of
                  Inl p \<Rightarrow> Inl p
                | Inr l \<Rightarrow>
                    Inr (cons\<lparr>standardConsumer := base, profileRuns := runs,
                              batches := b, length' := l\<rparr>, err))))"

text \<open>Strings are lists of runes here, one \<open>char\<close> per rune: every rune of
  \<^verbatim>\<open>stringBase\<close> is below 256. The last two are the section sign and the apostrophe.\<close>

definition stringBase :: string where
  "stringBase =
     ''abcdefghijklmnopqrstuvwxyzABCDEFGHIJKLMNOPQRSTUVWXYZ01234567890 _.!?/&%$''
     @ [CHR 0xA7, CHR 0x27]"

text \<open>\<^verbatim>\<open>%d\<close>: the decimal digits of an integer.\<close>

fun digits :: "nat \<Rightarrow> string" where
  "digits n =
     (if n < 10 then [''0123456789'' ! n]
      else digits (n div 10) @ [''0123456789'' ! (n mod 10)])"

declare digits.simps [simp del]

definition Itoa :: "int \<Rightarrow> string" where
  "Itoa i = (if i < 0 then CHR ''-'' # digits (nat (- i)) else digits (nat i))"

text \<open>\<^verbatim>\<open>fmt.Sprintf("%d/%d %s", i, runs, s)\<close>.\<close>

definition Sprintf :: "int \<Rightarrow> int \<Rightarrow> string \<Rightarrow> string" where
  "Sprintf i runs s = Itoa i @ ''/'' @ Itoa runs @ '' '' @ s"

text \<open>What \<^verbatim>\<open>profile\<close> does to the outside: a call of \<^verbatim>\<open>postMessage\<close>, and the
  log note after a batch (its run number; the measured time is not modelled).\<close>

datatype profiler_event = PostMessage string | LogNote int

text \<open>The first loop of \<^verbatim>\<open>profile\<close> fills the slice. \<open>rng k\<close> is the number drawn by
  the \<open>k\<close>-th call of \<^verbatim>\<open>rand.Intn\<close>, reduced to the range \<^verbatim>\<open>Intn\<close> promises.\<close>

function rand_loop :: "int \<Rightarrow> (nat \<Rightarrow> nat) \<Rightarrow> int \<Rightarrow> string \<Rightarrow> string" where
  "rand_loop len rng i randString =
     (if i < len
      then rand_loop len rng (i + 1)
             (randString[nat i := stringBase ! (rng (nat i) mod length stringBase)])
      else randString)"
  by pat_completeness auto
termination
  by (relation "measure (\<lambda>(len, rng, i, randString). nat (len - i))") auto

declare rand_loop.simps [simp del]

text \<open>The inner loop: one batch of \<^verbatim>\<open>profileRuns\<close> messages.\<close>

function run_loop :: "'c Profiler \<Rightarrow> string \<Rightarrow> int \<Rightarrow> profiler_event list \<Rightarrow> profiler_event list" where
  "run_loop cons randString i acc =
     (if i < profileRuns cons
      then run_loop cons randString (i + 1)
             (acc @ [PostMessage (Sprintf i (profileRuns cons) randString)])
      else acc)"
  by pat_completeness auto
termination
  by (relation "measure (\<lambda>(cons, randString, i, acc). nat (profileRuns cons - i))") auto

declare run_loop.simps [simp del]

text \<open>The outer loop over the batches.\<close>

function batch_loop :: "'c Profiler \<Rightarrow> string \<Rightarrow> int \<Rightarrow> profiler_event list \<Rightarrow> profiler_event list" where
  "batch_loop cons randString b acc =
     (if b < batches cons
      then batch_loop cons randString (b + 1) (run_loop cons randString 0 acc @ [LogNote b])
      else acc)"
  by pat_completeness auto
termination
  by (relation "measure (\<lambda>(cons, randString, b, acc). nat (batches cons - b))") auto

declare batch_loop.simps [simp del]

text \<open>\<^verbatim>\<open>profile\<close>. \<^verbatim>\<open>make([]rune, n)\<close> panics with \<^verbatim>\<open>makeslice: len out of range\<close>
  for a negative \<open>n\<close> and for an \<open>n\<close> whose slice is larger than the run time can
  allocate, and otherwise returns \<open>n\<close> zero runes. A rune is an \<^verbatim>\<open>int32\<close>, so the slice
  takes \<open>4 * n\<close> bytes; the largest allocation that succeeds depends on the platform, the
  Go version and the memory of the machine, and is the parameter \<open>maxAlloc\<close> (in bytes).
  Memory running out in one of the later, smaller allocations is not modelled.\<close>

definition Profiler_profile :: "int \<Rightarrow> (nat \<Rightarrow> nat) \<Rightarrow> 'c Profiler \<Rightarrow> panic + profiler_event list" where
  "Profiler_profile maxAlloc rng cons =
     (if length' cons < 0 \<or> maxAlloc < 4 * length' cons then Inl MakesliceLenOutOfRange
      else
        (let randString = rand_loop (length' cons) rng 0 (replicate (nat (length' cons)) (CHR 0x00))
         in Inr (batch_loop cons randString 0 [])))"

text \<open>The payloads handed to \<^verbatim>\<open>postMessage\<close>, in order.\<close>

fun posted :: "profiler_event list \<Rightarrow> string list" where
  "posted [] = []"
| "posted (PostMessage m # es) = m # posted es"
| "posted (LogNote b # es) = posted es"

text \<open>
  \<^verbatim>\<open>Consume\<close> starts \<^verbatim>\<open>profile\<close> in a goroutine of its own and then reads the
  control channel in a loop. \<open>control\<close> is what the channel delivers, in order; the type of
  the commands and the constant \<^verbatim>\<open>shared.ConsumerControlStop\<close> are declared elsewhere
  and are parameters. The result is \<open>Some rest\<close> when the function returns, with what it
  left in the channel, and \<open>None\<close> when the receive blocks for ever on a channel that
  delivers nothing more.
\<close>

fun control_loop :: "'cmd \<Rightarrow> 'cmd list \<Rightarrow> 'cmd list option" where
  "control_loop ConsumerControlStop [] = None"
| "control_loop ConsumerControlStop (command # rest) =
     (if command = ConsumerControlStop then Some rest
      else control_loop ConsumerControlStop rest)"

definition Profiler_Consume :: "'cmd \<Rightarrow> 'cmd list \<Rightarrow> 'cmd list option" where
  "Profiler_Consume ConsumerControlStop control = control_loop ConsumerControlStop control"

section \<open>Properties of the configuration\<close>

lemma well_typed_settings_Cons:
  "well_typed_settings ((k, v) # s) \<Longrightarrow> well_typed_settings s \<and> map_of s k = None"
  by (auto simp: well_typed_settings_def map_of_eq_None_iff image_iff)

lemma well_typed_settings_Enable:
  "well_typed_settings ((''Enable'', v) # s) \<Longrightarrow> \<exists>b. v = DBool b"
  by (cases v) (auto simp: well_typed_settings_def is_bool_def)

lemma settings_loop_typed:
  "well_typed_settings s \<Longrightarrow>
   \<exists>p. settings_loop plugin (map (\<lambda>(k, v). (DString k, v)) s) = Inr p \<and>
       (\<forall>k. Settings p k = (if k = ''Enable'' then Settings plugin k
                          else (case map_of s k of Some v \<Rightarrow> Some v | None \<Rightarrow> Settings plugin k)))"
proof (induction s arbitrary: plugin)
  case Nil
  then show ?case by simp
next
  case (Cons kv s)
  obtain k v where kv: "kv = (k, v)" by (cases kv)
  from Cons.prems kv have wt: "well_typed_settings s" and fresh: "map_of s k = None"
    using well_typed_settings_Cons by blast+
  show ?case
  proof (cases "k = ''Enable''")
    case True
    with Cons.prems kv obtain b where b: "v = DBool b"
      using well_typed_settings_Enable by blast
    from Cons.IH [OF wt, of "plugin\<lparr>Enable := b\<rparr>"] obtain p where
      p: "settings_loop (plugin\<lparr>Enable := b\<rparr>) (map (\<lambda>(k, v). (DString k, v)) s) = Inr p"
      and sp: "\<And>k'. Settings p k' = (if k' = ''Enable'' then Settings (plugin\<lparr>Enable := b\<rparr>) k'
                 else (case map_of s k' of Some v \<Rightarrow> Some v | None \<Rightarrow> Settings (plugin\<lparr>Enable := b\<rparr>) k'))"
      by blast
    have "settings_loop plugin (map (\<lambda>(k, v). (DString k, v)) (kv # s)) = Inr p"
      using p True b kv by simp
    moreover have "Settings p k' = (if k' = ''Enable'' then Settings plugin k'
                 else (case map_of (kv # s) k' of Some v \<Rightarrow> Some v | None \<Rightarrow> Settings plugin k'))" for k'
      using sp [of k'] True kv by (simp split: option.splits)
    ultimately show ?thesis by blast
  next
    case False
    from Cons.IH [OF wt, of "plugin\<lparr>Settings := (Settings plugin)(k \<mapsto> v)\<rparr>"] obtain p where
      p: "settings_loop (plugin\<lparr>Settings := (Settings plugin)(k \<mapsto> v)\<rparr>) (map (\<lambda>(k, v). (DString k, v)) s) = Inr p"
      and sp: "\<And>k'. Settings p k' = (if k' = ''Enable'' then Settings (plugin\<lparr>Settings := (Settings plugin)(k \<mapsto> v)\<rparr>) k'
                 else (case map_of s k' of Some v \<Rightarrow> Some v | None \<Rightarrow> Settings (plugin\<lparr>Settings := (Settings plugin)(k \<mapsto> v)\<rparr>) k'))"
      by blast
    have "settings_loop plugin (map (\<lambda>(k, v). (DString k, v)) (kv # s)) = Inr p"
      using p False kv by simp
    moreover have "Settings p k' = (if k' = ''Enable'' then Settings plugin k'
                 else (case map_of (kv # s) k' of Some v \<Rightarrow> Some v | None \<Rightarrow> Settings plugin k'))" for k'
      using sp [of k'] False kv fresh by (cases "k' = k") (auto split: option.splits)
    ultimately show ?thesis by blast
  qed
qed

lemma settings_loop_fresh:
  assumes "well_typed_settings s"
  shows "\<exists>p. settings_loop \<lparr>Enable = False, Settings = Map.empty\<rparr> (map (\<lambda>(k, v). (DString k, v)) s) = Inr p \<and>
       Settings p = stored_settings s"
proof -
  from settings_loop_typed [OF assms, of "\<lparr>Enable = False, Settings = Map.empty\<rparr>"]
  obtain p where
    run: "settings_loop \<lparr>Enable = False, Settings = Map.empty\<rparr> (map (\<lambda>(k, v). (DString k, v)) s) = Inr p"
    and sp: "\<And>k. Settings p k = (if k = ''Enable'' then Settings \<lparr>Enable = False, Settings = Map.empty\<rparr> k
                          else (case map_of s k of Some v \<Rightarrow> Some v
                                | None \<Rightarrow> Settings \<lparr>Enable = False, Settings = Map.empty\<rparr> k))"
    by blast
  have "Settings p k = stored_settings s k" for k
    using sp [of k] by (simp add: stored_settings_def split: option.splits)
  then have "Settings p = stored_settings s" by (rule ext)
  with run show ?thesis by blast
qed

lemma class_loop_single:
  assumes "well_typed_settings s"
  shows "\<exists>p. class_loop conf [(DString c, settings_tree s)] =
           Inr (conf\<lparr>PluginLists := (PluginLists conf)(c \<mapsto> plugins_of conf c @ [p])\<rparr>) \<and>
           Settings p = stored_settings s"
  using settings_loop_fresh [OF assms]
  by (auto simp: settings_tree_def plugins_of_def)

lemma plugins_of_update:
  "plugins_of (conf\<lparr>PluginLists := (PluginLists conf)(c \<mapsto> l)\<rparr>) cls =
     (if cls = c then l else plugins_of conf cls)"
  by (simp add: plugins_of_def)

lemma plugin_loop_declarations:
  "\<forall>d \<in> set decls. well_typed_settings (snd d) \<Longrightarrow>
   \<exists>conf'. plugin_loop conf (map (\<lambda>(c, s). DMap [(DString c, settings_tree s)]) decls) = Inr conf' \<and>
     (\<forall>cls. \<exists>new. plugins_of conf' cls = plugins_of conf cls @ new \<and>
        map Settings new = map (\<lambda>d. stored_settings (snd d)) (filter (\<lambda>d. fst d = cls) decls))"
proof (induction decls arbitrary: conf)
  case Nil
  then show ?case by simp
next
  case (Cons d decls)
  obtain c s where d: "d = (c, s)" by (cases d)
  from Cons.prems d have wt: "well_typed_settings s" by simp
  from class_loop_single [OF wt, of conf c] obtain p where
    cl: "class_loop conf [(DString c, settings_tree s)] =
           Inr (conf\<lparr>PluginLists := (PluginLists conf)(c \<mapsto> plugins_of conf c @ [p])\<rparr>)"
    and sp: "Settings p = stored_settings s" by blast
  define conf1 where "conf1 = conf\<lparr>PluginLists := (PluginLists conf)(c \<mapsto> plugins_of conf c @ [p])\<rparr>"
  from Cons.prems have "\<forall>d \<in> set decls. well_typed_settings (snd d)" by simp
  from Cons.IH [OF this, of conf1] obtain conf' where
    pl: "plugin_loop conf1 (map (\<lambda>(c, s). DMap [(DString c, settings_tree s)]) decls) = Inr conf'"
    and rest: "\<forall>cls. \<exists>new. plugins_of conf' cls = plugins_of conf1 cls @ new \<and>
        map Settings new = map (\<lambda>d. stored_settings (snd d)) (filter (\<lambda>d. fst d = cls) decls)"
    by blast
  have run: "plugin_loop conf (map (\<lambda>(c, s). DMap [(DString c, settings_tree s)]) (d # decls)) = Inr conf'"
    using cl pl d by (simp add: conf1_def)
  have "\<exists>new. plugins_of conf' cls = plugins_of conf cls @ new \<and>
        map Settings new = map (\<lambda>d. stored_settings (snd d)) (filter (\<lambda>d. fst d = cls) (d # decls))" for cls
  proof -
    from rest obtain new where
      n1: "plugins_of conf' cls = plugins_of conf1 cls @ new" and
      n2: "map Settings new = map (\<lambda>d. stored_settings (snd d)) (filter (\<lambda>d. fst d = cls) decls)"
      by blast
    show ?thesis
    proof (cases "cls = c")
      case True
      then have "plugins_of conf' cls = plugins_of conf cls @ (p # new)"
        using n1 by (simp add: conf1_def plugins_of_update)
      moreover have "map Settings (p # new) = map (\<lambda>d. stored_settings (snd d)) (filter (\<lambda>d. fst d = cls) (d # decls))"
        using n2 sp d True by simp
      ultimately show ?thesis by blast
    next
      case False
      then have "plugins_of conf' cls = plugins_of conf cls @ new"
        using n1 by (simp add: conf1_def plugins_of_update)
      moreover have "map Settings new = map (\<lambda>d. stored_settings (snd d)) (filter (\<lambda>d. fst d = cls) (d # decls))"
        using n2 d False by auto
      ultimately show ?thesis by blast
    qed
  qed
  with run show ?case by blast
qed

text \<open>
  Claim C6. \<^verbatim>\<open>SetYAML\<close> turns a sequence of declarations, each a single-entry map from a
  class name to a settings map, into one \<open>PluginConfig\<close> per declaration: for every class
  the list stored under it is the list stored before, followed by one entry for each
  declaration of that class, in declaration order, and the \<open>Settings\<close> of that entry are the
  declared settings without the key \<open>Enable\<close>. The call returns \<open>true\<close> and does not panic.
\<close>

theorem SetYAML_declarations:
  assumes "\<forall>d \<in> set decls. well_typed_settings (snd d)"
  shows "\<exists>conf'. SetYAML conf tagType (declaration_tree decls) = Inr (conf', True) \<and>
     (\<forall>cls. \<exists>new. plugins_of conf' cls = plugins_of conf cls @ new \<and>
        map Settings new = map (\<lambda>d. stored_settings (snd d)) (filter (\<lambda>d. fst d = cls) decls))"
  using plugin_loop_declarations [OF assms, of conf]
  by (auto simp: SetYAML_def declaration_tree_def)


text \<open>The theorem at one declaration of \<open>consumer.Syslogd\<close> with an address and
  \<open>Enable: true\<close>, read into an empty configuration.\<close>

theorem SetYAML_declarations_witness:
  "well_typed_settings [(''Address'', DString ''udp://0.0.0.0:514''), (''Enable'', DBool True)] \<and>
   (\<exists>conf'.
      SetYAML \<lparr>PluginLists = Map.empty\<rparr> ''plugins''
        (declaration_tree
          [(''consumer.Syslogd'', [(''Address'', DString ''udp://0.0.0.0:514''), (''Enable'', DBool True)])]) =
        Inr (conf', True) \<and>
      map Settings (plugins_of conf' ''consumer.Syslogd'') =
        [stored_settings [(''Address'', DString ''udp://0.0.0.0:514''), (''Enable'', DBool True)]])"
proof -
  have single: "\<exists>conf'. SetYAML conf ''plugins'' (declaration_tree [(c, s)]) = Inr (conf', True) \<and>
      map Settings (plugins_of conf' c) = map Settings (plugins_of conf c) @ [stored_settings s]"
    if wt: "well_typed_settings s" for c :: string and s conf
  proof -
    from wt have "\<forall>d \<in> set [(c, s)]. well_typed_settings (snd d)"
      by simp
    from SetYAML_declarations [OF this, of conf "''plugins''"]
    obtain conf' where
      run: "SetYAML conf ''plugins'' (declaration_tree [(c, s)]) = Inr (conf', True)"
      and all: "\<And>cls. \<exists>new. plugins_of conf' cls = plugins_of conf cls @ new \<and>
          map Settings new = map (\<lambda>d. stored_settings (snd d)) (filter (\<lambda>d. fst d = cls) [(c, s)])"
      by blast
    from all [of c] obtain new where
      n1: "plugins_of conf' c = plugins_of conf c @ new" and
      n2: "map Settings new = map (\<lambda>d. stored_settings (snd d)) (filter (\<lambda>d. fst d = c) [(c, s)])"
      by blast
    from n2 have "map Settings new = [stored_settings s]" by simp
    with n1 have "map Settings (plugins_of conf' c) = map Settings (plugins_of conf c) @ [stored_settings s]"
      by simp
    with run show ?thesis by blast
  qed
  have wt0: "well_typed_settings [(''Address'', DString ''udp://0.0.0.0:514''), (''Enable'', DBool True)]"
    by (simp add: well_typed_settings_def is_bool_def)
  have empty: "map Settings (plugins_of \<lparr>PluginLists = Map.empty\<rparr> c) = []" for c
    by (simp add: plugins_of_def)
  show ?thesis
    using single [OF wt0, of "\<lparr>PluginLists = Map.empty\<rparr>" "''consumer.Syslogd''"] wt0
    unfolding empty append_Nil by (rule_tac conjI)
qed

text \<open>
  Claim C1. A declaration without the key \<open>Enable\<close> should give a \<open>PluginConfig\<close> with
  \<open>Enable = true\<close>. The code starts every \<open>PluginConfig\<close> with \<open>Enable = false\<close> and only
  the key \<open>Enable\<close> changes it: the declaration of the syslog consumer as its own
  documentation gives it, with an address and a format and no \<open>Enable\<close>, is stored
  disabled.
\<close>

theorem SetYAML_Enable_absent:
  "\<exists>conf'.
     SetYAML \<lparr>PluginLists = Map.empty\<rparr> ''plugins''
       (declaration_tree
         [(''consumer.Syslogd'',
           [(''Address'', DString ''udp://0.0.0.0:514''), (''Format'', DString ''RFC6587'')])]) =
       Inr (conf', True) \<and>
     map Enable (plugins_of conf' ''consumer.Syslogd'') = [False]"
  by (simp add: SetYAML_def declaration_tree_def settings_tree_def plugins_of_def)

section \<open>Properties of the syslog consumer\<close>

lemma Handle_no_string:
  "\<not> field_is_string cons parts \<Longrightarrow>
   \<exists>log. Syslogd_Handle cons parts = Inr (cons, log) \<and> seqnos log = [] \<and> list_all is_log log"
  by (auto simp: Syslogd_Handle_def field_is_string_def expected_field_def string_assertion_def
      split: option.splits Format.splits dynamic.splits)

lemma Handle_string:
  "field_is_string cons parts \<Longrightarrow> sequence cons = Some s \<Longrightarrow>
   \<exists>content. Syslogd_Handle cons parts = Inr (cons\<lparr>sequence := Some (s + 1)\<rparr>, [Enqueue content s])"
  by (auto simp: Syslogd_Handle_def field_is_string_def expected_field_def string_assertion_def
      split: option.splits Format.splits dynamic.splits)

lemma field_is_string_sequence [simp]:
  "field_is_string (cons\<lparr>sequence := x\<rparr>) = field_is_string cons"
  by (simp add: field_is_string_def fun_eq_iff)

lemma seqnos_append: "seqnos (xs @ ys) = seqnos xs @ seqnos ys"
  by (induction xs rule: seqnos.induct) auto

lemma HandleAll_seqnos:
  "sequence cons = Some s \<Longrightarrow>
   \<exists>evs. HandleAll cons ps =
           Inr (cons\<lparr>sequence := Some (s + of_nat (length (filter (field_is_string cons) ps)))\<rparr>, evs) \<and>
         seqnos evs = map (\<lambda>i. s + of_nat i) [0..<length (filter (field_is_string cons) ps)]"
proof (induction ps arbitrary: cons s)
  case Nil
  then show ?case by simp
next
  case (Cons parts ps)
  show ?case
  proof (cases "field_is_string cons parts")
    case True
    from Handle_string [OF True Cons.prems] obtain content where
      h: "Syslogd_Handle cons parts = Inr (cons\<lparr>sequence := Some (s + 1)\<rparr>, [Enqueue content s])"
      by blast
    define k where "k = length (filter (field_is_string cons) ps)"
    from Cons.IH [of "cons\<lparr>sequence := Some (s + 1)\<rparr>" "s + 1"] obtain evs where
      r: "HandleAll (cons\<lparr>sequence := Some (s + 1)\<rparr>) ps =
            Inr (cons\<lparr>sequence := Some (s + 1 + of_nat k)\<rparr>, evs)"
      and q: "seqnos evs = map (\<lambda>i. s + 1 + of_nat i) [0..<k]"
      by (auto simp: k_def)
    have "map (\<lambda>i. s + of_nat i) [0..<Suc k] = s # map (\<lambda>i. s + 1 + of_nat i) [0..<k]"
      by (simp add: upt_conv_Cons map_Suc_upt [symmetric] del: upt_Suc add: ac_simps)
    with h r q True show ?thesis
      by (simp add: k_def ac_simps)
  next
    case False
    from Handle_no_string [OF False] obtain log where
      h: "Syslogd_Handle cons parts = Inr (cons, log)" and l: "seqnos log = []"
      by blast
    from Cons.IH [OF Cons.prems] h l False show ?thesis
      by (auto simp: seqnos_append)
  qed
qed

lemma word64_of_nat_strict:
  "sorted_wrt (<) (map (of_nat :: nat \<Rightarrow> 64 word) [0..<k])" if "k \<le> 2 ^ 64"
proof -
  have "(of_nat i :: 64 word) < of_nat j" if "i < j" "j < k" for i j
  proof -
    from that \<open>k \<le> 2 ^ 64\<close> have "i < 2 ^ 64" "j < 2 ^ 64" by simp_all
    then have "take_bit 64 i = i" "take_bit 64 j = j"
      by (simp_all add: take_bit_nat_eq_self)
    with \<open>i < j\<close> show ?thesis
      by (simp add: word_of_nat_less_iff)
  qed
  then show ?thesis
    by (simp add: sorted_wrt_iff_nth_less)
qed

text \<open>
  Claim C2, amended. On a consumer whose counter is 0, as \<^verbatim>\<open>Configure\<close> leaves it, every
  sequence of calls of \<^verbatim>\<open>Handle\<close> in which no two calls overlap returns without panic,
  and the sequence numbers passed to \<^verbatim>\<open>Enqueue\<close> are \<open>0, 1, \<dots>, k - 1\<close> as 64-bit values,
  where \<open>k\<close> is the number of calls that found their string: each is one more than the one
  before, modulo \<open>2 ^ 64\<close>. They are strictly increasing as long as at most \<open>2 ^ 64\<close>
  messages were enqueued. Calls that overlap are not covered: the counter is read and
  incremented without synchronisation.
\<close>

theorem Handle_sequence_numbers:
  assumes "sequence cons = Some 0"
  shows "\<exists>cons' evs. HandleAll cons ps = Inr (cons', evs) \<and>
           seqnos evs = map of_nat [0..<length (filter (field_is_string cons) ps)] \<and>
           (length (filter (field_is_string cons) ps) \<le> 2 ^ 64 \<longrightarrow> sorted_wrt (<) (seqnos evs))"
proof -
  from HandleAll_seqnos [OF assms, of ps] obtain evs where
    r: "HandleAll cons ps =
           Inr (cons\<lparr>sequence := Some (0 + of_nat (length (filter (field_is_string cons) ps)))\<rparr>, evs)"
    and q: "seqnos evs = map (\<lambda>i. 0 + of_nat i) [0..<length (filter (field_is_string cons) ps)]"
    by blast
  from q have q': "seqnos evs = map of_nat [0..<length (filter (field_is_string cons) ps)]"
    by simp
  with r show ?thesis
    using word64_of_nat_strict by auto
qed

lemma replicate_filter_all: "P x \<Longrightarrow> filter P (replicate n x) = replicate n x"
  by (induction n) auto

text \<open>
  Claim C2 as stated fails even for calls made one after another: the counter is a
  \<^verbatim>\<open>uint64\<close> and \<^verbatim>\<open>*cons.sequence++\<close> wraps. After \<open>2 ^ 64\<close> enqueued messages the next one
  is enqueued with the number 0 again, so the numbers passed in \<open>2 ^ 64 + 1\<close> successful
  calls are not strictly increasing.
\<close>

theorem Handle_sequence_wraps:
  "case HandleAll \<lparr>ConsumerBase = (), format = Some RFC6587, protocol = ''udp'',
                   address = ''0.0.0.0:514'', sequence = Some 0\<rparr>
          (replicate (2 ^ 64 + 1) [''message'' \<mapsto> DString ''a'']) of
     Inl p \<Rightarrow> False
   | Inr (cons', evs) \<Rightarrow> \<not> sorted_wrt (<) (seqnos evs)"
proof -
  define cons :: "unit Syslogd" where
    "cons = \<lparr>ConsumerBase = (), format = Some RFC6587, protocol = ''udp'',
             address = ''0.0.0.0:514'', sequence = Some 0\<rparr>"
  define parts :: "string \<rightharpoonup> dynamic" where "parts = [''message'' \<mapsto> DString ''a'']"
  define n :: nat where "n = 2 ^ 64 + 1"
  have fs: "field_is_string cons parts"
    by (simp add: field_is_string_def expected_field_def cons_def parts_def)
  have len: "length (filter (field_is_string cons) (replicate n parts)) = n"
    using fs by (simp add: replicate_filter_all [of "field_is_string cons" parts n])
  have s0: "sequence cons = Some 0" by (simp add: cons_def)
  from HandleAll_seqnos [OF s0, of "replicate n parts"] obtain evs cons' where
    r: "HandleAll cons (replicate n parts) = Inr (cons', evs)"
    and q: "seqnos evs = map (\<lambda>i. 0 + of_nat i) [0..<n]"
    unfolding len by blast
  have "\<not> sorted_wrt (<) (seqnos evs)"
  proof
    assume "sorted_wrt (<) (seqnos evs)"
    moreover have "0 < (2::nat) ^ 64" "(2::nat) ^ 64 < length (seqnos evs)"
      unfolding q n_def by simp_all
    ultimately have "seqnos evs ! 0 < seqnos evs ! (2 ^ 64)"
      unfolding sorted_wrt_iff_nth_less by blast
    moreover have "seqnos evs ! 0 = 0"
      unfolding q n_def by (subst nth_map) simp_all
    moreover have "seqnos evs ! (2 ^ 64) = (of_nat (2 ^ 64) :: 64 word)"
      unfolding q n_def by (subst nth_map) simp_all
    moreover have "(of_nat (2 ^ 64) :: 64 word) = 0"
      by simp
    ultimately show False by simp
  qed
  with r show ?thesis
    unfolding cons_def parts_def n_def by simp
qed

text \<open>The theorem on the consumer that \<^verbatim>\<open>Configure\<close> returns for the default
  settings (RFC6587 on udp), for three messages of which the second has no
  \<open>message\<close> field: the numbers passed are 0 and 1.\<close>

theorem Handle_sequence_numbers_witness:
  "case Syslogd_Configure (\<lambda>b. (b, None :: string option)) (\<lambda>key defaultValue. defaultValue)
          (\<lambda>a. (drop 6 a, take 3 a))
          \<lparr>ConsumerBase = (), format = None, protocol = [], address = [], sequence = None\<rparr> of
     (cons, log, err) \<Rightarrow>
       sequence cons = Some 0 \<and>
       (\<exists>cons' evs.
          HandleAll cons
            [[''message'' \<mapsto> DString ''a''], [''content'' \<mapsto> DString ''b''],
             [''message'' \<mapsto> DString ''c'']] = Inr (cons', evs) \<and>
          seqnos evs = [0, 1] \<and> sorted_wrt (<) (seqnos evs))"
proof -
  define cons :: "unit Syslogd" where
    "cons = \<lparr>ConsumerBase = (), format = Some RFC6587, protocol = ''udp'',
             address = ''0.0.0.0:514'', sequence = Some 0\<rparr>"
  define ps :: "(string \<rightharpoonup> dynamic) list" where
    "ps = [[''message'' \<mapsto> DString ''a''], [''content'' \<mapsto> DString ''b''],
             [''message'' \<mapsto> DString ''c'']]"
  have conf: "Syslogd_Configure (\<lambda>b. (b, None :: string option)) (\<lambda>key defaultValue. defaultValue)
          (\<lambda>a. (drop 6 a, take 3 a))
          \<lparr>ConsumerBase = (), format = None, protocol = [], address = [], sequence = None\<rparr> =
        (cons, [], None)"
    by (simp add: Syslogd_Configure_def cons_def)
  have s0: "sequence cons = Some 0" by (simp add: cons_def)
  have k: "length (filter (field_is_string cons) ps) = 2"
    by (simp add: ps_def cons_def field_is_string_def expected_field_def)
  from Handle_sequence_numbers [OF s0, of ps] obtain cons' evs where
    r: "HandleAll cons ps = Inr (cons', evs)" and
    q: "seqnos evs = map of_nat [0..<2]" and
    m: "sorted_wrt (<) (seqnos evs)"
    unfolding k by auto
  from q have "seqnos evs = [0, 1]"
    by (simp add: upt_rec numeral_2_eq_2)
  with r m s0 have "sequence cons = Some 0 \<and>
       (\<exists>cons' evs. HandleAll cons ps = Inr (cons', evs) \<and>
          seqnos evs = [0, 1] \<and> sorted_wrt (<) (seqnos evs))"
    by blast
  then show ?thesis
    unfolding conf prod.case unfolding ps_def .
qed

text \<open>
  Claim C8. When the field that the consumer's format expects (\<open>content\<close> for RFC3164,
  \<open>message\<close> for RFC5424 and RFC6587) is absent or is not a string, \<^verbatim>\<open>Handle\<close> returns
  with the consumer unchanged, its sequence counter included, and it has only written log
  lines: nothing was passed to \<^verbatim>\<open>Enqueue\<close>. The same holds for a consumer with no format.
\<close>

theorem Handle_error_state_unchanged:
  assumes "\<not> field_is_string cons parts"
  shows "\<exists>log. Syslogd_Handle cons parts = Inr (cons, log) \<and> seqnos log = [] \<and>
           list_all is_log log \<and>
           HandleAll cons [parts] = Inr (cons, log)"
proof -
  from Handle_no_string [OF assms] obtain log where
    "Syslogd_Handle cons parts = Inr (cons, log)" "seqnos log = []" "list_all is_log log"
    by blast
  then show ?thesis by simp
qed

text \<open>The theorem on an RFC3164 consumer with counter 7 and a message whose \<open>content\<close>
  is a number.\<close>

theorem Handle_error_state_unchanged_witness:
  "\<not> field_is_string
       \<lparr>ConsumerBase = (), format = Some RFC3164, protocol = ''udp'', address = ''0.0.0.0:514'',
        sequence = Some 7\<rparr>
       [''message'' \<mapsto> DString ''a'', ''content'' \<mapsto> DInt 5] \<and>
   Syslogd_Handle
       \<lparr>ConsumerBase = (), format = Some RFC3164, protocol = ''udp'', address = ''0.0.0.0:514'',
        sequence = Some 7\<rparr>
       [''message'' \<mapsto> DString ''a'', ''content'' \<mapsto> DInt 5] =
     Inr (\<lparr>ConsumerBase = (), format = Some RFC3164, protocol = ''udp'', address = ''0.0.0.0:514'',
          sequence = Some 7\<rparr>, [LogError ''Message/Content is not a string''])"
proof -
  define cons :: "unit Syslogd" where
    "cons = \<lparr>ConsumerBase = (), format = Some RFC3164, protocol = ''udp'',
             address = ''0.0.0.0:514'', sequence = Some 7\<rparr>"
  define parts :: "string \<rightharpoonup> dynamic" where
    "parts = [''message'' \<mapsto> DString ''a'', ''content'' \<mapsto> DInt 5]"
  have n: "\<not> field_is_string cons parts"
    by (simp add: field_is_string_def expected_field_def cons_def parts_def)
  from Handle_error_state_unchanged [OF n] obtain log where
    h: "Syslogd_Handle cons parts = Inr (cons, log)" by blast
  have "Syslogd_Handle cons parts = Inr (cons, [LogError ''Message/Content is not a string''])"
    by (simp add: Syslogd_Handle_def string_assertion_def cons_def parts_def)
  with n h show ?thesis
    unfolding cons_def parts_def by simp
qed

text \<open>
  Claim C3. \<^verbatim>\<open>Configure\<close> returns an error if and only if the base configuration returns
  one, or the protocol parsed from the address is none of udp, tcp and unix, or the
  configured format is none of RFC3164, RFC5424 and RFC6587. Whatever it returns,
  \<^verbatim>\<open>Configure\<close> has done nothing but write log lines: no server was created or
  booted and no control loop entered.
\<close>

theorem Configure_error_iff:
  "(snd (snd (Syslogd_Configure baseConfigure confGetString ParseAddress cons)) \<noteq> None) =
   (snd (baseConfigure (ConsumerBase cons)) \<noteq> None \<or>
    snd (ParseAddress (confGetString ''Address'' ''udp://0.0.0.0:514'')) \<notin> {''udp'', ''tcp'', ''unix''} \<or>
    confGetString ''Format'' ''RFC6587'' \<notin> {''RFC3164'', ''RFC5424'', ''RFC6587''})
   \<and> list_all is_log (fst (snd (Syslogd_Configure baseConfigure confGetString ParseAddress cons)))"
  by (auto simp: Syslogd_Configure_def Let_def split: prod.splits option.splits)

text \<open>The theorem for a configuration that asks for the format \<open>RFC1234\<close>.\<close>

theorem Configure_error_iff_witness:
  "snd (snd (Syslogd_Configure (\<lambda>b. (b, None :: string option))
        (\<lambda>key defaultValue. if key = ''Format'' then ''RFC1234'' else defaultValue)
        (\<lambda>a. (drop 6 a, take 3 a))
        \<lparr>ConsumerBase = (), format = None, protocol = [], address = [], sequence = None\<rparr>)) \<noteq> None"
  using Configure_error_iff [where baseConfigure = "\<lambda>b. (b, None :: string option)"
        and confGetString = "\<lambda>key defaultValue. if key = ''Format'' then ''RFC1234'' else defaultValue"
        and ParseAddress = "\<lambda>a. (drop 6 a, take 3 a)"
        and cons = "\<lparr>ConsumerBase = (), format = None, protocol = [], address = [], sequence = None\<rparr>"]
  by simp

text \<open>
  Claim C9. When the base configuration succeeds, the address names the protocol tcp and
  the format is RFC3164 or RFC5424, \<^verbatim>\<open>Configure\<close> returns no error: it writes the warning
  that the format demands UDP and leaves the consumer with the protocol udp.
\<close>

theorem Configure_tcp_coerced:
  assumes "snd (baseConfigure (ConsumerBase cons)) = None"
    and "snd (ParseAddress (confGetString ''Address'' ''udp://0.0.0.0:514'')) = ''tcp''"
    and "confGetString ''Format'' ''RFC6587'' = ''RFC3164'' \<or>
         confGetString ''Format'' ''RFC6587'' = ''RFC5424''"
  shows "\<exists>cons'. Syslogd_Configure baseConfigure confGetString ParseAddress cons =
           (cons', [LogWarning (''Syslog: '' @ confGetString ''Format'' ''RFC6587'' @ '' demands UDP'')], None) \<and>
         protocol cons' = ''udp'' \<and>
         address cons' = fst (ParseAddress (confGetString ''Address'' ''udp://0.0.0.0:514''))"
  using assms
  by (auto simp: Syslogd_Configure_def Let_def split: prod.splits option.splits)

text \<open>The theorem for the address \<open>tcp://0.0.0.0:5880\<close> with the format RFC5424.\<close>

theorem Configure_tcp_coerced_witness:
  "Syslogd_Configure (\<lambda>b. (b, None :: string option))
        (\<lambda>key defaultValue. if key = ''Format'' then ''RFC5424''
                             else if key = ''Address'' then ''tcp://0.0.0.0:5880'' else defaultValue)
        (\<lambda>a. (drop 6 a, take 3 a))
        \<lparr>ConsumerBase = (), format = None, protocol = [], address = [], sequence = None\<rparr> =
     (\<lparr>ConsumerBase = (), format = Some RFC5424, protocol = ''udp'', address = ''0.0.0.0:5880'',
       sequence = Some 0\<rparr>, [LogWarning ''Syslog: RFC5424 demands UDP''], None)"
  using Configure_tcp_coerced [where baseConfigure = "\<lambda>b. (b, None :: string option)"
        and cons = "\<lparr>ConsumerBase = (), format = None, protocol = [], address = [], sequence = None\<rparr>"
        and ParseAddress = "\<lambda>a. (drop 6 a, take 3 a)"
        and confGetString = "\<lambda>key defaultValue. if key = ''Format'' then ''RFC5424''
                             else if key = ''Address'' then ''tcp://0.0.0.0:5880'' else defaultValue"]
  by (simp add: Syslogd_Configure_def)

section \<open>Properties of the profiler\<close>

lemma run_loop_closed:
  "0 \<le> i \<Longrightarrow>
   run_loop cons rs i acc =
     acc @ map (\<lambda>j. PostMessage (Sprintf (int j) (profileRuns cons) rs)) [nat i..<nat (profileRuns cons)]"
proof (induction cons rs i acc rule: run_loop.induct)
  case (1 cons rs i acc)
  show ?case
  proof (cases "i < profileRuns cons")
    case True
    with "1.prems" have up: "[nat i..<nat (profileRuns cons)] = nat i # [nat (i + 1)..<nat (profileRuns cons)]"
      by (simp add: upt_conv_Cons nat_add_distrib)
    from "1.IH" [OF True] "1.prems" have
      "run_loop cons rs (i + 1) (acc @ [PostMessage (Sprintf i (profileRuns cons) rs)]) =
         (acc @ [PostMessage (Sprintf i (profileRuns cons) rs)]) @
         map (\<lambda>j. PostMessage (Sprintf (int j) (profileRuns cons) rs)) [nat (i + 1)..<nat (profileRuns cons)]"
      by simp
    with True "1.prems" show ?thesis
      by (subst run_loop.simps) (simp add: up)
  next
    case False
    then show ?thesis
      by (subst run_loop.simps) simp
  qed
qed

lemma posted_append: "posted (xs @ ys) = posted xs @ posted ys"
  by (induction xs rule: posted.induct) auto

lemma posted_PostMessage: "posted (map PostMessage ms) = ms"
  by (induction ms) auto

lemma posted_run_loop:
  "posted (run_loop cons rs 0 acc) =
     posted acc @ map (\<lambda>j. Sprintf (int j) (profileRuns cons) rs) [0..<nat (profileRuns cons)]"
proof -
  have "map (\<lambda>j. PostMessage (Sprintf (int j) (profileRuns cons) rs)) [0..<nat (profileRuns cons)] =
        map PostMessage (map (\<lambda>j. Sprintf (int j) (profileRuns cons) rs) [0..<nat (profileRuns cons)])"
    by simp
  then show ?thesis
    using run_loop_closed [of 0 cons rs acc]
    by (simp add: posted_append posted_PostMessage del: map_map)
qed

lemma posted_batch_loop:
  "0 \<le> b \<Longrightarrow>
   posted (batch_loop cons rs b acc) =
     posted acc @
     concat (replicate (nat (batches cons) - nat b)
       (map (\<lambda>j. Sprintf (int j) (profileRuns cons) rs) [0..<nat (profileRuns cons)]))"
proof (induction cons rs b acc rule: batch_loop.induct)
  case (1 cons rs b acc)
  show ?case
  proof (cases "b < batches cons")
    case True
    with "1.prems" have n: "nat (batches cons) - nat b = Suc (nat (batches cons) - nat (b + 1))"
      by (simp add: nat_add_distrib)
    from "1.IH" [OF True] "1.prems" have
      "posted (batch_loop cons rs (b + 1) (run_loop cons rs 0 acc @ [LogNote b])) =
         posted (run_loop cons rs 0 acc @ [LogNote b]) @
         concat (replicate (nat (batches cons) - nat (b + 1))
           (map (\<lambda>j. Sprintf (int j) (profileRuns cons) rs) [0..<nat (profileRuns cons)]))"
      by simp
    with True show ?thesis
      by (subst batch_loop.simps) (simp add: n posted_append posted_run_loop)
  next
    case False
    with "1.prems" have "nat (batches cons) - nat b = 0" by simp
    with False show ?thesis
      by (subst batch_loop.simps) simp
  qed
qed

lemma rand_loop_nth:
  "0 \<le> i \<Longrightarrow> length rs = nat len \<Longrightarrow>
   length (rand_loop len rng i rs) = nat len \<and>
   (\<forall>j < nat len. rand_loop len rng i rs ! j =
      (if nat i \<le> j then stringBase ! (rng j mod length stringBase) else rs ! j))"
proof (induction len rng i rs rule: rand_loop.induct)
  case (1 len rng i rs)
  show ?case
  proof (cases "i < len")
    case True
    let ?rs = "rs[nat i := stringBase ! (rng (nat i) mod length stringBase)]"
    from "1.IH" [OF True] "1.prems" have
      ih: "length (rand_loop len rng (i + 1) ?rs) = nat len \<and>
       (\<forall>j < nat len. rand_loop len rng (i + 1) ?rs ! j =
          (if nat (i + 1) \<le> j then stringBase ! (rng j mod length stringBase) else ?rs ! j))"
      by simp
    have eq: "rand_loop len rng i rs = rand_loop len rng (i + 1) ?rs"
      using True by (subst rand_loop.simps) simp
    have "rand_loop len rng (i + 1) ?rs ! j =
          (if nat i \<le> j then stringBase ! (rng j mod length stringBase) else rs ! j)"
      if "j < nat len" for j
    proof -
      from ih that have "rand_loop len rng (i + 1) ?rs ! j =
          (if nat (i + 1) \<le> j then stringBase ! (rng j mod length stringBase) else ?rs ! j)"
        by blast
      moreover have "nat (i + 1) = Suc (nat i)" using "1.prems" by (simp add: nat_add_distrib)
      ultimately show ?thesis
        using that "1.prems" by (cases "j = nat i") (auto simp: nth_list_update)
    qed
    with ih eq show ?thesis by simp
  next
    case False
    then have "rand_loop len rng i rs = rs"
      by (subst rand_loop.simps) simp
    with False "1.prems" show ?thesis by auto
  qed
qed

lemma rand_loop_closed:
  "0 \<le> len \<Longrightarrow>
   rand_loop len rng 0 (replicate (nat len) c) =
     map (\<lambda>j. stringBase ! (rng j mod length stringBase)) [0..<nat len]"
  using rand_loop_nth [of 0 "replicate (nat len) c" len rng]
  by (intro nth_equalityI) auto

lemma stringBase_length: "length stringBase = 74"
  by (simp add: stringBase_def)

lemma stringBase_nth_mem: "stringBase ! (k mod length stringBase) \<in> set stringBase"
  by (rule nth_mem) (simp add: stringBase_length)

lemma length_concat_replicate: "length (concat (replicate n xs)) = n * length xs"
  by (induction n) auto

lemma Itoa_small: "Itoa 0 = ''0''" "Itoa 1 = ''1''" "Itoa 2 = ''2''"
  by (simp_all add: Itoa_def digits.simps)

lemma stringBase_abc: "stringBase ! 0 = CHR ''a''" "stringBase ! Suc 0 = CHR ''b''" "stringBase ! Suc (Suc 0) = CHR ''c''"
  by (simp_all add: stringBase_def)

lemma upt_small: "[0..<nat 2] = [0, Suc 0]" "[0..<nat 3] = [0, Suc 0, Suc (Suc 0)]"
  by (simp_all add: upt_rec numeral_2_eq_2 numeral_3_eq_3)

lemma profile_panics:
  "length' cons < 0 \<or> maxAlloc < 4 * length' cons \<Longrightarrow>
   Profiler_profile maxAlloc rng cons = Inl MakesliceLenOutOfRange"
  by (auto simp: Profiler_profile_def)

text \<open>
  Claim C10, amended. For a profiler with \<open>Runs r\<close>, \<open>Batches b\<close> and \<open>Length l\<close>, where \<open>l\<close>
  is not negative and a slice of \<open>l\<close> runes is within what the run time can allocate, one
  run of \<^verbatim>\<open>profile\<close> returns without panic and posts exactly \<open>max b 0 * max r 0\<close>
  messages, which is \<open>b * r\<close> when neither is negative and none when one of them is: in
  each of the \<open>b\<close> batches, for \<open>i = 0, \<dots>, r - 1\<close> in this order, the payload is the decimal
  \<open>i\<close>, a slash, the decimal \<open>r\<close>, a space and the random string. The random string is
  the same in every message; it has \<open>l\<close> runes, each drawn from \<^verbatim>\<open>stringBase\<close>.
\<close>

theorem profile_posts:
  assumes "0 \<le> length' cons" and "4 * length' cons \<le> maxAlloc"
  shows "\<exists>evs randString.
           Profiler_profile maxAlloc rng cons = Inr evs \<and>
           randString = map (\<lambda>j. stringBase ! (rng j mod length stringBase)) [0..<nat (length' cons)] \<and>
           length randString = nat (length' cons) \<and>
           set randString \<subseteq> set stringBase \<and>
           int (length (posted evs)) = max (batches cons) 0 * max (profileRuns cons) 0 \<and>
           (0 \<le> batches cons \<and> 0 \<le> profileRuns cons \<longrightarrow>
              int (length (posted evs)) = batches cons * profileRuns cons) \<and>
           posted evs =
             concat (replicate (nat (batches cons))
               (map (\<lambda>i. Itoa (int i) @ ''/'' @ Itoa (profileRuns cons) @ '' '' @ randString)
                  [0..<nat (profileRuns cons)]))"
proof -
  define randString where
    "randString = map (\<lambda>j. stringBase ! (rng j mod length stringBase)) [0..<nat (length' cons)]"
  define evs where "evs = batch_loop cons randString 0 []"
  have run: "Profiler_profile maxAlloc rng cons = Inr evs"
    using assms rand_loop_closed [OF assms(1), of rng "CHR 0x00"]
    by (simp add: Profiler_profile_def evs_def randString_def)
  have len: "length randString = nat (length' cons)"
    by (simp add: randString_def)
  have sub: "set randString \<subseteq> set stringBase"
    using stringBase_nth_mem by (auto simp: randString_def)
  have p: "posted evs =
             concat (replicate (nat (batches cons))
               (map (\<lambda>i. Itoa (int i) @ ''/'' @ Itoa (profileRuns cons) @ '' '' @ randString)
                  [0..<nat (profileRuns cons)]))"
    using posted_batch_loop [of 0 cons randString "[]"]
    by (simp add: evs_def Sprintf_def)
  have "length (posted evs) = nat (batches cons) * nat (profileRuns cons)"
    unfolding p by (simp add: length_concat_replicate)
  then have n: "int (length (posted evs)) = int (nat (batches cons)) * int (nat (profileRuns cons))"
    by simp
  have m: "int (length (posted evs)) = max (batches cons) 0 * max (profileRuns cons) 0"
    unfolding n by (simp add: max_def)
  then have "0 \<le> batches cons \<and> 0 \<le> profileRuns cons \<longrightarrow>
      int (length (posted evs)) = batches cons * profileRuns cons"
    by (simp add: max_def)
  with run len sub p m randString_def show ?thesis by blast
qed

text \<open>The theorem for two batches of two runs and a string of length three, with the
  random numbers 0, 1, 2 and an allocation limit of \<open>2 ^ 48\<close> bytes.\<close>

theorem profile_posts_witness:
  "\<exists>evs. Profiler_profile (2 ^ 48) (\<lambda>k. k)
            \<lparr>standardConsumer = (), profileRuns = 2, batches = 2, length' = 3\<rparr> = Inr evs \<and>
          int (length (posted evs)) = 2 * 2 \<and>
          posted evs = [''0/2 abc'', ''1/2 abc'', ''0/2 abc'', ''1/2 abc'']"
proof -
  define cons :: "unit Profiler" where
    "cons = \<lparr>standardConsumer = (), profileRuns = 2, batches = 2, length' = 3\<rparr>"
  have h: "0 \<le> length' cons" "4 * length' cons \<le> 2 ^ 48"
    by (simp_all add: cons_def)
  have c: "length' cons = 3" "profileRuns cons = 2" "batches cons = 2"
    by (simp_all add: cons_def)
  from profile_posts [OF h, of "\<lambda>k. k"] obtain evs where
    run: "Profiler_profile (2 ^ 48) (\<lambda>k. k) cons = Inr evs" and
    n: "0 \<le> batches cons \<and> 0 \<le> profileRuns cons \<longrightarrow>
          int (length (posted evs)) = batches cons * profileRuns cons" and
    p: "posted evs =
          concat (replicate (nat (batches cons))
            (map (\<lambda>i. Itoa (int i) @ ''/'' @ Itoa (profileRuns cons) @ '' '' @
                      map (\<lambda>j. stringBase ! (j mod length stringBase)) [0..<nat (length' cons)])
               [0..<nat (profileRuns cons)]))"
    by blast
  from n have n': "int (length (posted evs)) = 2 * 2"
    unfolding c by simp
  have rs: "map (\<lambda>j. stringBase ! (j mod length stringBase)) [0..<nat 3] = ''abc''"
    unfolding upt_small stringBase_length by (simp add: stringBase_abc)
  have ms: "map (\<lambda>i. Itoa (int i) @ ''/'' @ Itoa 2 @ '' '' @ ''abc'') [0..<nat 2] =
             [''0/2 abc'', ''1/2 abc'']"
    unfolding upt_small by (simp add: Itoa_small)
  have "posted evs = [''0/2 abc'', ''1/2 abc'', ''0/2 abc'', ''1/2 abc'']"
    unfolding p c rs ms by (simp add: numeral_2_eq_2)
  with run n' show ?thesis
    unfolding cons_def by blast
qed

text \<open>
  Claim C10 as stated fails for negative settings: with \<open>Runs = -1\<close>, \<open>Batches = -1\<close> and
  \<open>Length = 0\<close> the batch loop is not entered and nothing is posted, while \<open>b * r = 1\<close>.
\<close>

theorem profile_negative_runs:
  "let cons = \<lparr>standardConsumer = (), profileRuns = - 1, batches = - 1, length' = 0\<rparr>
   in case Profiler_profile (2 ^ 48) (\<lambda>k. 0) cons of
        Inl p \<Rightarrow> False
      | Inr evs \<Rightarrow> posted evs = [] \<and> int (length (posted evs)) \<noteq> batches cons * profileRuns cons"
  by (simp add: Profiler_profile_def rand_loop.simps batch_loop.simps)

text \<open>
  Claim C5. A typed getter returns the caller's default when the key is absent from the
  settings and the declared value when the key is declared with a value of the getter's
  type; so \<^verbatim>\<open>Profiler.Create\<close>, given a configuration that declares none of \<open>Runs\<close>,
  \<open>Batches\<close> and \<open>Length\<close>, returns a profiler with 10000 runs, 10 batches and length 256,
  together with the error of the base configuration.
\<close>

theorem typed_getters:
  "(Settings conf key = None \<longrightarrow>
      GetInt conf key i = Inr i \<and> GetString conf key s = Inr s \<and> GetBool conf key b = Inr b) \<and>
   (Settings conf key = Some (DInt v) \<longrightarrow> GetInt conf key i = Inr v) \<and>
   (Settings conf key = Some (DString w) \<longrightarrow> GetString conf key s = Inr w) \<and>
   (Settings conf key = Some (DBool c) \<longrightarrow> GetBool conf key b = Inr c) \<and>
   (Settings conf ''Runs'' = None \<and> Settings conf ''Batches'' = None \<and>
    Settings conf ''Length'' = None \<longrightarrow>
      Profiler_Create configureStandardConsumer cons conf =
        Inr (cons\<lparr>standardConsumer := fst (configureStandardConsumer (standardConsumer cons) conf),
                  profileRuns := 10000, batches := 10, length' := 256\<rparr>,
             snd (configureStandardConsumer (standardConsumer cons) conf)))"
  by (simp add: GetInt_def GetString_def GetBool_def Profiler_Create_def split: prod.splits)

text \<open>The theorem for a configuration that declares \<open>Runs: 5\<close> only, and
  \<^verbatim>\<open>Create\<close> for one that declares nothing.\<close>

theorem typed_getters_witness:
  "GetInt \<lparr>Enable = True, Settings = [''Runs'' \<mapsto> DInt 5]\<rparr> ''Runs'' 10000 = Inr 5 \<and>
   GetInt \<lparr>Enable = True, Settings = [''Runs'' \<mapsto> DInt 5]\<rparr> ''Batches'' 10 = Inr 10 \<and>
   Profiler_Create (\<lambda>base conf. (base, None :: string option))
       \<lparr>standardConsumer = (), profileRuns = 0, batches = 0, length' = 0\<rparr>
       \<lparr>Enable = True, Settings = Map.empty\<rparr> =
     Inr (\<lparr>standardConsumer = (), profileRuns = 10000, batches = 10, length' = 256\<rparr>, None)"
proof -
  have a: "GetInt \<lparr>Enable = True, Settings = [''Runs'' \<mapsto> DInt 5]\<rparr> ''Runs'' 10000 = Inr 5"
    using typed_getters [where conf = "\<lparr>Enable = True, Settings = [''Runs'' \<mapsto> DInt 5]\<rparr>"
      and key = "''Runs''" and i = 10000 and v = 5]
    by simp
  have b: "GetInt \<lparr>Enable = True, Settings = [''Runs'' \<mapsto> DInt 5]\<rparr> ''Batches'' 10 = Inr 10"
    using typed_getters [where conf = "\<lparr>Enable = True, Settings = [''Runs'' \<mapsto> DInt 5]\<rparr>"
      and key = "''Batches''" and i = 10]
    by simp
  have c: "Profiler_Create (\<lambda>base conf. (base, None :: string option))
       \<lparr>standardConsumer = (), profileRuns = 0, batches = 0, length' = 0\<rparr>
       \<lparr>Enable = True, Settings = Map.empty\<rparr> =
     Inr (\<lparr>standardConsumer = (), profileRuns = 10000, batches = 10, length' = 256\<rparr>, None)"
    using typed_getters [where conf = "\<lparr>Enable = True, Settings = Map.empty\<rparr>"
      and configureStandardConsumer = "\<lambda>base conf. (base, None :: string option)"
      and cons = "\<lparr>standardConsumer = (), profileRuns = 0, batches = 0, length' = 0\<rparr>"]
    by simp
  from a b c show ?thesis by (intro conjI)
qed

text \<open>
  Claim C7. \<^verbatim>\<open>Consume\<close> returns if and only if the control channel delivers
  \<^verbatim>\<open>ConsumerControlStop\<close>, and it returns on the first one: it has then read every
  command up to and including that one and nothing after it. Every other command is read
  and dropped; on a channel that never delivers a stop, \<^verbatim>\<open>Consume\<close> does not return.
\<close>

theorem Consume_returns_on_stop:
  "Profiler_Consume ConsumerControlStop control =
     (if ConsumerControlStop \<in> set control
      then Some (tl (dropWhile (\<lambda>command. command \<noteq> ConsumerControlStop) control))
      else None)"
  unfolding Profiler_Consume_def by (induction control) auto

end
